theory Spec2Isabelle
  imports Main "HOL-Library.Sublist"
begin

section \<open>Values and errors of the JavaScript module\<close>

text \<open>
  The module \<^verbatim>\<open>src/collect.js\<close> runs the Flow binary, parses its JSON output and turns
  the errors into records for ESLint. Strings are \<^typ>\<open>string\<close>, the bytes of the text in
  UTF-8: the module compares, concatenates and searches strings, and looks at single
  characters only in its regular expression and in lower-casing, both about ASCII
  characters. Numbers are the line numbers, columns, offsets, exit codes and counters of
  Flow's output, integers that JavaScript adds and prints exactly, and are modelled as
  \<^typ>\<open>int\<close>. A value that may be \<^verbatim>\<open>null\<close> or \<^verbatim>\<open>undefined\<close> is an \<^typ>\<open>'a option\<close>.
  An uncaught JavaScript exception is the left summand of the result.
\<close>

datatype js_error = TypeError

definition bindE :: "js_error + 'a \<Rightarrow> ('a \<Rightarrow> js_error + 'b) \<Rightarrow> js_error + 'b" where
  "bindE r f = (case r of Inl e \<Rightarrow> Inl e | Inr v \<Rightarrow> f v)"

text \<open>\<^verbatim>\<open>Array.prototype.filter\<close> and \<^verbatim>\<open>Array.prototype.map\<close> with a callback that may throw:
  the elements are visited from the left and the first exception ends the call.\<close>

fun filterE :: "('a \<Rightarrow> js_error + bool) \<Rightarrow> 'a list \<Rightarrow> js_error + 'a list" where
  "filterE p [] = Inr []"
| "filterE p (x # xs) =
     bindE (p x) (\<lambda>b. bindE (filterE p xs) (\<lambda>ys. Inr (if b then x # ys else ys)))"

fun mapE :: "('a \<Rightarrow> js_error + 'b) \<Rightarrow> 'a list \<Rightarrow> js_error + 'b list" where
  "mapE f [] = Inr []"
| "mapE f (x # xs) = bindE (f x) (\<lambda>y. bindE (mapE f xs) (\<lambda>ys. Inr (y # ys)))"

subsection \<open>String primitives\<close>

text \<open>\<^verbatim>\<open>String.prototype.includes\<close>: the argument occurs as a contiguous substring.\<close>

fun str_includes :: "string \<Rightarrow> string \<Rightarrow> bool" where
  "str_includes [] sub = (sub = [])"
| "str_includes (c # cs) sub = (prefix sub (c # cs) \<or> str_includes cs sub)"

text \<open>
  \<^verbatim>\<open>String.prototype.toLowerCase\<close> on the ASCII letters; every other character is kept.
  JavaScript also lowers letters outside ASCII, to letters outside ASCII (but for the
  Kelvin sign, lowered to \<^verbatim>\<open>k\<close>, and the dotted capital I, lowered to \<^verbatim>\<open>i\<close> followed by a
  combining dot), so the occurrences of the ASCII text \<^verbatim>\<open>missing type annotation\<close>, which
  has no \<^verbatim>\<open>k\<close> and no \<^verbatim>\<open>i\<close> at its end, are the same.
\<close>

definition lower_char :: "char \<Rightarrow> char" where
  "lower_char c =
     (case map_of (zip ''ABCDEFGHIJKLMNOPQRSTUVWXYZ'' ''abcdefghijklmnopqrstuvwxyz'') c of
        None \<Rightarrow> c
      | Some l \<Rightarrow> l)"

definition toLowerCase :: "string \<Rightarrow> string" where
  "toLowerCase s = map lower_char s"

text \<open>\<^verbatim>\<open>str.replace(pat, '')\<close> with a string pattern: the first occurrence of the pattern
  is removed; an empty pattern matches at the start and removes nothing.\<close>

fun remove_first :: "string \<Rightarrow> string \<Rightarrow> string" where
  "remove_first pat [] = []"
| "remove_first pat (c # cs) =
     (if prefix pat (c # cs) then drop (length pat) (c # cs) else c # remove_first pat cs)"

text \<open>The decimal text of an integer, as a template literal prints a number.\<close>

definition digit_char :: "nat \<Rightarrow> char" where
  "digit_char d = ''0123456789'' ! d"

fun show_nat :: "nat \<Rightarrow> string" where
  "show_nat n = (if n < 10 then [digit_char n] else show_nat (n div 10) @ [digit_char (n mod 10)])"

declare show_nat.simps [simp del]

definition show_num :: "int \<Rightarrow> string" where
  "show_num i = (if i < 0 then CHR ''-'' # show_nat (nat (- i)) else show_nat (nat i))"

section \<open>Flow's JSON output\<close>

record FlowPos =
  line :: int
  column :: int
  offset :: int

datatype loc_kind = SourceFile | LibFile

record FlowLoc =
  source :: "string option"
  start :: FlowPos
  end' :: FlowPos
  loc_type :: loc_kind

datatype msg_kind = Blame | Comment

record FlowMessage =
  path :: string
  descr :: string
  msg_type :: msg_kind
  msg_line :: int
  endline :: int
  loc :: "FlowLoc option"

record FlowExtra =
  extra_message :: "FlowMessage list"

record FlowError =
  message :: "FlowMessage list"
  level :: "string option"
  operation :: "FlowMessage option"
  extra :: "FlowExtra list option"

text \<open>
  What \<^verbatim>\<open>JSON.parse(stdout)\<close> gives, as far as the module looks at it. The module reads
  the properties \<^verbatim>\<open>errors\<close>, \<^verbatim>\<open>exit\<close>, \<^verbatim>\<open>flowVersion\<close> and \<^verbatim>\<open>expressions\<close> only.
  \<^item> \<open>SyntaxError\<close>: the text is not JSON and \<^verbatim>\<open>JSON.parse\<close> throws;
  \<^item> \<open>JNull\<close>: the text is the JSON value \<^verbatim>\<open>null\<close>, and reading a property of it throws a
    \<^verbatim>\<open>TypeError\<close>;
  \<^item> \<open>JObject\<close>: any other JSON value. A property that is absent (or \<^verbatim>\<open>null\<close>, or falsy
    where the code tests truthiness) is \<open>None\<close>; \<^verbatim>\<open>errors\<close> is either an array of Flow
    errors or anything else. A template literal prints an absent \<^verbatim>\<open>msg\<close> or \<^verbatim>\<open>code\<close>
    of \<^verbatim>\<open>exit\<close> as \<^verbatim>\<open>undefined\<close>.
\<close>

record exit_info =
  exit_msg :: "string option"
  exit_code :: "int option"

record expressions_info =
  covered_count :: int
  uncovered_count :: int

datatype errors_field = NotAnArray | ErrorArray "FlowError list"

record envelope =
  errors :: errors_field
  exit :: "exit_info option"
  flowVersion :: string
  expressions :: "expressions_info option"

datatype parsed = SyntaxError | JNull | JObject envelope

section \<open>The environment of the module\<close>

text \<open>
  The module calls Node's \<^verbatim>\<open>child_process\<close>, \<^verbatim>\<open>JSON\<close> and \<^verbatim>\<open>path\<close>, the package
  \<^verbatim>\<open>slash\<close>, and reads one environment variable. They are parameters of the model:
  \<^item> \<open>spawnSync args input\<close> is the \<^verbatim>\<open>stdout\<close> of
    \<^verbatim>\<open>childProcess.spawnSync(getFlowBin(), args, {input, encoding: 'utf-8'})\<close>,
    \<open>None\<close> when there is none;
  \<^item> \<open>JSON_parse\<close>, \<open>path_resolve\<close>, \<open>path_basename\<close> and \<open>slash\<close> are the library
    functions;
  \<^item> \<open>DEBUG_FLOWTYPE_ERRRORS\<close> is \<^verbatim>\<open>process.env.DEBUG_FLOWTYPE_ERRRORS === 'true'\<close>.
\<close>

record platform =
  spawnSync :: "string list \<Rightarrow> string \<Rightarrow> string option"
  JSON_parse :: "string \<Rightarrow> parsed"
  path_resolve :: "string \<Rightarrow> string \<Rightarrow> string"
  path_basename :: "string \<Rightarrow> string"
  slash :: "string \<Rightarrow> string"
  DEBUG_FLOWTYPE_ERRRORS :: bool

text \<open>
  The state of the Node process: the module variable \<^verbatim>\<open>didExecute\<close>, the listeners added
  with \<^verbatim>\<open>process.on('exit', ...)\<close> (each one runs \<^verbatim>\<open>flow stop root\<close> for the root it
  closed over, so a listener is its root), and the log of the checker processes
  spawned so far (arguments and standard input).
\<close>

record proc =
  didExecute :: bool
  exit_hooks :: "string list"
  spawned :: "(string list \<times> string) list"

section \<open>The functions of \<^verbatim>\<open>collect.js\<close>\<close>

definition FlowSeverity_Error :: string where
  "FlowSeverity_Error = ''error''"

definition FlowSeverity_Warning :: string where
  "FlowSeverity_Warning = ''warning''"

text \<open>\<^verbatim>\<open>(operation && operation.loc) || message[0].loc\<close>; \<^verbatim>\<open>message[0]\<close> is
  \<^verbatim>\<open>undefined\<close> for an empty array and reading its \<^verbatim>\<open>loc\<close> throws.\<close>

definition mainLocOfError :: "FlowError \<Rightarrow> js_error + FlowLoc option" where
  "mainLocOfError error =
     (case (case operation error of None \<Rightarrow> None | Some opn \<Rightarrow> loc opn) of
        Some l \<Rightarrow> Inr (Some l)
      | None \<Rightarrow> (case message error of [] \<Rightarrow> Inl TypeError | m # _ \<Rightarrow> Inr (loc m)))"

record Pos =
  pos_line :: int
  pos_column :: int

record Loc =
  loc_start :: Pos
  loc_end :: Pos

record fatal_element =
  fatal_level :: string
  fatal_loc :: Loc
  fatal_message :: string

record new_loc =
  new_start :: FlowPos
  new_end :: FlowPos

record output_element =
  out_debug :: "envelope option"
  out_type :: string
  out_level :: string
  out_message :: string
  out_path :: string
  out_start :: int
  out_end :: int
  out_loc :: new_loc

datatype collect_element = Fatal fatal_element | Diag output_element

definition fatalError :: "string \<Rightarrow> collect_element list" where
  "fatalError msg =
     [Fatal \<lparr>fatal_level = FlowSeverity_Error,
             fatal_loc = \<lparr>loc_start = \<lparr>pos_line = 1, pos_column = 1\<rparr>,
                          loc_end = \<lparr>pos_line = 1, pos_column = 1\<rparr>\<rparr>,
             fatal_message = msg\<rparr>]"

definition formatSeePath :: "platform \<Rightarrow> FlowMessage \<Rightarrow> string \<Rightarrow> string \<Rightarrow> string" where
  "formatSeePath P m root flowVersion' =
     (if (case loc m of None \<Rightarrow> False | Some l \<Rightarrow> loc_type l = LibFile)
      then ''https://github.com/facebook/flow/blob/v'' @ flowVersion' @ ''/lib/''
             @ path_basename P (path m) @ ''#L'' @ show_num (msg_line m)
      else ''.'' @ slash P (remove_first root (path m)) @ '':'' @ show_num (msg_line m))"

subsection \<open>The regular expression of \<^verbatim>\<open>formatMessage\<close>\<close>

definition is_digit :: "char \<Rightarrow> bool" where
  "is_digit c = (c \<in> set ''0123456789'')"

text \<open>
  \<^verbatim>\<open>/ (\[\d+\])/\<close> tried at the head of a string: a space, an opening bracket, one or more
  digits (as many as there are), a closing bracket. The result is the text of the
  group \<^verbatim>\<open>[digits]\<close> and what follows the match.
\<close>

definition match_ref :: "string \<Rightarrow> (string \<times> string) option" where
  "match_ref s =
     (case s of
        c1 # c2 # r \<Rightarrow>
          if c1 = CHR '' '' \<and> c2 = CHR ''[''
          then (case dropWhile is_digit r of
                  [] \<Rightarrow> None
                | c3 # rest \<Rightarrow>
                    if takeWhile is_digit r \<noteq> [] \<and> c3 = CHR '']''
                    then Some (''['' @ takeWhile is_digit r @ '']'', rest)
                    else None)
          else None
      | _ \<Rightarrow> None)"

lemma match_ref_shorter: "match_ref s = Some (g, rest) \<Longrightarrow> length rest < length s"
proof -
  assume m: "match_ref s = Some (g, rest)"
  then obtain c1 c2 r where s: "s = c1 # c2 # r"
    by (cases s; cases "tl s") (auto simp: match_ref_def)
  from m s obtain c3 where "dropWhile is_digit r = c3 # rest"
    by (auto simp: match_ref_def split: if_splits list.splits)
  then have "length rest < length (dropWhile is_digit r)" by simp
  also have "\<dots> \<le> length r" by (rule length_dropWhile_le)
  finally show ?thesis using s by simp
qed

text \<open>
  \<^verbatim>\<open>str.replace(/ (\[\d+\])/g, callback)\<close>: the string is scanned from the left; at a
  match the callback's result replaces it and the scan goes on after the match;
  elsewhere the character is copied. The callback gets the matched text and the group.
\<close>

function replace_refs :: "(string \<Rightarrow> string \<Rightarrow> js_error + string) \<Rightarrow> string \<Rightarrow> js_error + string" where
  "replace_refs f s =
     (case match_ref s of
        Some (g, rest) \<Rightarrow>
          bindE (f (CHR '' '' # g) g) (\<lambda>r. bindE (replace_refs f rest) (\<lambda>t. Inr (r @ t)))
      | None \<Rightarrow>
          (case s of
             [] \<Rightarrow> Inr []
           | c # cs \<Rightarrow> bindE (replace_refs f cs) (\<lambda>t. Inr (c # t))))"
  by pat_completeness auto
termination
  by (relation "measure (\<lambda>(f, s). length s)") (auto dest: match_ref_shorter)

declare replace_refs.simps [simp del]

text \<open>\<^verbatim>\<open>extras.find(extra => extra.descr === extraDescr)\<close>; an element of the array may
  be \<^verbatim>\<open>undefined\<close> (\<open>None\<close>), and reading its \<^verbatim>\<open>descr\<close> throws.\<close>

fun find_extra :: "string \<Rightarrow> FlowMessage option list \<Rightarrow> js_error + FlowMessage option" where
  "find_extra d [] = Inr None"
| "find_extra d (None # xs) = Inl TypeError"
| "find_extra d (Some x # xs) = (if descr x = d then Inr (Some x) else find_extra d xs)"

definition replacement ::
  "platform \<Rightarrow> FlowMessage \<Rightarrow> FlowMessage option list \<Rightarrow> string \<Rightarrow> string \<Rightarrow> int
     \<Rightarrow> string \<Rightarrow> string \<Rightarrow> js_error + string" where
  "replacement P msg extras root flowVersion' lineOffset matchedStr extraDescr =
     bindE (find_extra extraDescr extras) (\<lambda>extraMessage.
       case extraMessage of
         None \<Rightarrow> Inr matchedStr
       | Some x \<Rightarrow>
           if path x \<noteq> path msg
           then Inr ('' (see '' @ formatSeePath P x root flowVersion' @ '')'')
           else Inr (if msg_line x = msg_line msg then []
                     else '' (see line '' @ show_num (lineOffset + msg_line x) @ '')''))"

definition formatMessage ::
  "platform \<Rightarrow> FlowMessage \<Rightarrow> FlowMessage option list \<Rightarrow> string \<Rightarrow> string \<Rightarrow> int
     \<Rightarrow> js_error + string" where
  "formatMessage P msg extras root flowVersion' lineOffset =
     replace_refs (replacement P msg extras root flowVersion' lineOffset) (descr msg)"

subsection \<open>Running the checker\<close>

definition onExit :: "string \<Rightarrow> proc \<Rightarrow> proc" where
  "onExit root st =
     (if \<not> didExecute st
      then st\<lparr>didExecute := True, exit_hooks := exit_hooks st @ [root]\<rparr>
      else st)"

datatype spawn_result = SBool bool | SText string

definition spawnFlow ::
  "platform \<Rightarrow> string \<Rightarrow> string \<Rightarrow> string \<Rightarrow> bool \<Rightarrow> string \<Rightarrow> proc \<Rightarrow> spawn_result \<times> proc" where
  "spawnFlow P mode input root stopOnExit filepath st =
     (if input = [] then (SBool True, st)
      else
        let args = [mode, ''--json'', ''--root='' @ root, filepath];
            st1 = st\<lparr>spawned := spawned st @ [(args, input)]\<rparr>
        in case spawnSync P args input of
             None \<Rightarrow> (SBool False, st1)
           | Some stdout \<Rightarrow>
               if stdout = [] then (SBool False, st1)
               else (SText stdout, if stopOnExit then onExit root st1 else st1))"

definition determineRuleType :: "string \<Rightarrow> string" where
  "determineRuleType description =
     (if str_includes (toLowerCase description) ''missing type annotation''
      then ''missing-annotation'' else ''default'')"

subsection \<open>\<^verbatim>\<open>collect\<close>\<close>

record programOffset =
  off_line :: int
  off_column :: int

text \<open>The callback of \<^verbatim>\<open>filter\<close>; \<open>None\<close> and the empty string are falsy.\<close>

definition keep :: "platform \<Rightarrow> string \<Rightarrow> string \<Rightarrow> FlowError \<Rightarrow> js_error + bool" where
  "keep P root fullFilepath error =
     bindE (mainLocOfError error) (\<lambda>mainLoc.
       case (case mainLoc of None \<Rightarrow> None | Some l \<Rightarrow> source l) of
         None \<Rightarrow> Inr False
       | Some mainFile \<Rightarrow>
           if mainFile = [] then Inr False
           else (case message error of
                   [] \<Rightarrow> Inl TypeError
                 | m # _ \<Rightarrow>
                     Inr (descr m \<noteq> []
                          \<and> \<not> str_includes (descr m) ''inconsistent use of''
                          \<and> path_resolve P root mainFile = fullFilepath)))"

definition defaultPos :: FlowPos where
  "defaultPos = \<lparr>line = 1, column = 1, offset = 0\<rparr>"

text \<open>One coordinate of \<^verbatim>\<open>newLoc\<close>: the line moved by the offset's line, the column moved
  by the offset's column on line 0 only, the offset kept.\<close>

definition shift_pos :: "programOffset \<Rightarrow> FlowPos \<Rightarrow> FlowPos" where
  "shift_pos off p =
     \<lparr>line = line p + off_line off,
      column = (if line p = 0 then column p + off_column off else column p),
      offset = offset p\<rparr>"

text \<open>
  The callback of \<^verbatim>\<open>map\<close>, in the three parts it is written in: the message text
  (the \<^verbatim>\<open>if\<close> on \<^verbatim>\<open>extra\<close>; an extra whose \<^verbatim>\<open>message\<close> array is empty gives the
  element \<^verbatim>\<open>undefined\<close>), the location \<^verbatim>\<open>newLoc\<close>, and the record it returns. The
  destructuring \<^verbatim>\<open>message: [messageObject]\<close> gives \<^verbatim>\<open>undefined\<close> for an empty array, and
  reading \<^verbatim>\<open>messageObject.descr\<close> throws.
\<close>

definition message_text ::
  "platform \<Rightarrow> envelope \<Rightarrow> string \<Rightarrow> programOffset \<Rightarrow> FlowError \<Rightarrow> FlowMessage
     \<Rightarrow> js_error + string" where
  "message_text P json root off error messageObject =
     (case extra error of
        None \<Rightarrow> Inr (descr messageObject)
      | Some xs \<Rightarrow>
          if length xs > 0
          then formatMessage P messageObject
                 (map (\<lambda>extraObj. case extra_message extraObj of [] \<Rightarrow> None | m # _ \<Rightarrow> Some m) xs)
                 root (flowVersion json) (off_line off)
          else Inr (descr messageObject))"

definition newLoc :: "programOffset \<Rightarrow> FlowMessage \<Rightarrow> new_loc" where
  "newLoc off messageObject =
     (case loc messageObject of
        Some l \<Rightarrow> \<lparr>new_start = shift_pos off (start l), new_end = shift_pos off (end' l)\<rparr>
      | None \<Rightarrow> \<lparr>new_start = shift_pos off defaultPos, new_end = shift_pos off defaultPos\<rparr>)"

definition output_record ::
  "platform \<Rightarrow> envelope \<Rightarrow> programOffset \<Rightarrow> FlowError \<Rightarrow> FlowMessage \<Rightarrow> string
     \<Rightarrow> output_element" where
  "output_record P json off error messageObject msg =
     \<lparr>out_debug = (if DEBUG_FLOWTYPE_ERRRORS P then Some json else None),
      out_type = determineRuleType msg,
      out_level = (case level error of
                     None \<Rightarrow> FlowSeverity_Error
                   | Some lv \<Rightarrow> if lv = [] then FlowSeverity_Error else lv),
      out_message = msg,
      out_path = path messageObject,
      out_start = line (new_start (newLoc off messageObject)),
      out_end = line (new_end (newLoc off messageObject)),
      out_loc = newLoc off messageObject\<rparr>"

definition normalize ::
  "platform \<Rightarrow> envelope \<Rightarrow> string \<Rightarrow> programOffset \<Rightarrow> FlowError \<Rightarrow> js_error + collect_element" where
  "normalize P json root off error =
     (case message error of
        [] \<Rightarrow> Inl TypeError
      | messageObject # _ \<Rightarrow>
          bindE (message_text P json root off error messageObject)
            (\<lambda>msg. Inr (Diag (output_record P json off error messageObject msg))))"

datatype collect_output = CBool bool | COutput "collect_element list"

definition collect ::
  "platform \<Rightarrow> string \<Rightarrow> string \<Rightarrow> bool \<Rightarrow> string \<Rightarrow> programOffset \<Rightarrow> proc
     \<Rightarrow> (js_error + collect_output) \<times> proc" where
  "collect P stdin root stopOnExit filepath off st =
     (case spawnFlow P ''check-contents'' stdin root stopOnExit filepath st of
        (SBool b, st') \<Rightarrow> (Inr (CBool b), st')
      | (SText stdout, st') \<Rightarrow>
          (case JSON_parse P stdout of
             SyntaxError \<Rightarrow> (Inr (COutput (fatalError ''Flow returned invalid json'')), st')
           | JNull \<Rightarrow> (Inl TypeError, st')
           | JObject json \<Rightarrow>
               (case errors json of
                  NotAnArray \<Rightarrow>
                    (case exit json of
                       Some ex \<Rightarrow>
                         (Inr (COutput (fatalError
                            (''Flow returned an error: ''
                               @ (case exit_msg ex of None \<Rightarrow> ''undefined'' | Some s \<Rightarrow> s)
                               @ '' (code: ''
                               @ (case exit_code ex of None \<Rightarrow> ''undefined'' | Some n \<Rightarrow> show_num n)
                               @ '')''))), st')
                     | None \<Rightarrow> (Inr (COutput (fatalError ''Flow returned invalid json'')), st'))
                | ErrorArray errs \<Rightarrow>
                    (bindE (filterE (keep P root (path_resolve P root filepath)) errs) (\<lambda>kept.
                       bindE (mapE (normalize P json root off) kept) (\<lambda>out.
                         Inr (COutput out))), st'))))"

subsection \<open>\<^verbatim>\<open>coverage\<close>\<close>

record CoverageOutput =
  coveredCount :: int
  uncoveredCount :: int

datatype coverage_output = VBool bool | VCounts CoverageOutput

text \<open>Only \<^verbatim>\<open>JSON.parse(stdout).expressions\<close> is inside the \<^verbatim>\<open>try\<close>: a syntax error and
  the property read on \<^verbatim>\<open>null\<close> are caught; \<^verbatim>\<open>expressions.covered_count\<close> is read after
  it, and throws when \<^verbatim>\<open>expressions\<close> is \<^verbatim>\<open>undefined\<close>.\<close>

definition coverage ::
  "platform \<Rightarrow> string \<Rightarrow> string \<Rightarrow> bool \<Rightarrow> string \<Rightarrow> proc
     \<Rightarrow> (js_error + coverage_output) \<times> proc" where
  "coverage P stdin root stopOnExit filepath st =
     (case spawnFlow P ''coverage'' stdin root stopOnExit filepath st of
        (SBool b, st') \<Rightarrow> (Inr (VBool b), st')
      | (SText stdout, st') \<Rightarrow>
          (case JSON_parse P stdout of
             SyntaxError \<Rightarrow> (Inr (VCounts \<lparr>coveredCount = 0, uncoveredCount = 0\<rparr>), st')
           | JNull \<Rightarrow> (Inr (VCounts \<lparr>coveredCount = 0, uncoveredCount = 0\<rparr>), st')
           | JObject json \<Rightarrow>
               (case expressions json of
                  None \<Rightarrow> (Inl TypeError, st')
                | Some ex \<Rightarrow>
                    (Inr (VCounts \<lparr>coveredCount = covered_count ex,
                                   uncoveredCount = uncovered_count ex\<rparr>), st'))))"

section \<open>Runs of the module\<close>

text \<open>The initial state of a Node process: no listener, no checker spawned.\<close>

definition proc0 :: proc where
  "proc0 = \<lparr>didExecute = False, exit_hooks = [], spawned = []\<rparr>"

text \<open>The argument list \<^verbatim>\<open>spawnFlow\<close> passes to the checker.\<close>

definition flow_args :: "string \<Rightarrow> string \<Rightarrow> string \<Rightarrow> string list" where
  "flow_args mode root filepath = [mode, ''--json'', ''--root='' @ root, filepath]"

text \<open>\<^verbatim>\<open>!stdout\<close>: the child process gave no standard output, or an empty one.\<close>

definition no_stdout :: "string option \<Rightarrow> bool" where
  "no_stdout out = (out = None \<or> out = Some [])"

text \<open>The input is not empty, the checker prints a text, and \<^verbatim>\<open>JSON.parse\<close> of the text
  gives \<open>v\<close>.\<close>

definition flow_answers :: "platform \<Rightarrow> string \<Rightarrow> string \<Rightarrow> string \<Rightarrow> string \<Rightarrow> parsed \<Rightarrow> bool" where
  "flow_answers P mode stdin root fp v =
     (stdin \<noteq> [] \<and>
      (case spawnSync P (flow_args mode root fp) stdin of
         None \<Rightarrow> False
       | Some out \<Rightarrow> out \<noteq> [] \<and> JSON_parse P out = v))"

text \<open>A sequence of invocations of \<^verbatim>\<open>collect\<close> and \<^verbatim>\<open>coverage\<close> in one process. Each
  call has its own environment, so the checker may answer each call differently.\<close>

record call =
  c_platform :: platform
  c_coverage :: bool
  c_stdin :: string
  c_root :: string
  c_stopOnExit :: bool
  c_filepath :: string
  c_offset :: programOffset

definition invoke :: "call \<Rightarrow> proc \<Rightarrow> proc" where
  "invoke c st =
     (if c_coverage c
      then snd (coverage (c_platform c) (c_stdin c) (c_root c) (c_stopOnExit c) (c_filepath c) st)
      else snd (collect (c_platform c) (c_stdin c) (c_root c) (c_stopOnExit c) (c_filepath c)
                  (c_offset c) st))"

definition run_calls :: "call list \<Rightarrow> proc \<Rightarrow> proc" where
  "run_calls cs st = fold invoke cs st"

text \<open>The call has input and the checker prints a text for it.\<close>

definition captures :: "call \<Rightarrow> bool" where
  "captures c =
     (c_stdin c \<noteq> [] \<and>
      \<not> no_stdout (spawnSync (c_platform c)
           (flow_args (if c_coverage c then ''coverage'' else ''check-contents'') (c_root c) (c_filepath c))
           (c_stdin c)))"

section \<open>The filter in the words of the specification\<close>

text \<open>The primary location: the operation's location if present, else the first
  message's location.\<close>

definition primary_loc :: "FlowError \<Rightarrow> FlowLoc option" where
  "primary_loc e =
     (case (case operation e of None \<Rightarrow> None | Some opn \<Rightarrow> loc opn) of
        Some l \<Rightarrow> Some l
      | None \<Rightarrow> (case message e of [] \<Rightarrow> None | m # _ \<Rightarrow> loc m))"

definition primary_source :: "FlowError \<Rightarrow> string option" where
  "primary_source e = (case primary_loc e of None \<Rightarrow> None | Some l \<Rightarrow> source l)"

text \<open>The condition as the specification words it: the primary location has a source
  that is not null, the first description is not empty and does not contain
  \<^verbatim>\<open>inconsistent use of\<close>, and the source resolves to the target file.\<close>

definition claimed_keep :: "platform \<Rightarrow> string \<Rightarrow> string \<Rightarrow> FlowError \<Rightarrow> bool" where
  "claimed_keep P root filepath e =
     (case primary_source e of
        None \<Rightarrow> False
      | Some src \<Rightarrow>
          (case message e of
             [] \<Rightarrow> False
           | m # _ \<Rightarrow> descr m \<noteq> [] \<and> \<not> str_includes (descr m) ''inconsistent use of''
                       \<and> path_resolve P root src = path_resolve P root filepath))"

text \<open>The same condition with a source that is neither null nor the empty string.\<close>

definition filter_keeps :: "platform \<Rightarrow> string \<Rightarrow> string \<Rightarrow> FlowError \<Rightarrow> bool" where
  "filter_keeps P root filepath e =
     (case primary_source e of
        None \<Rightarrow> False
      | Some src \<Rightarrow>
          (case message e of
             [] \<Rightarrow> False
           | m # _ \<Rightarrow> src \<noteq> [] \<and> descr m \<noteq> [] \<and> \<not> str_includes (descr m) ''inconsistent use of''
                       \<and> path_resolve P root src = path_resolve P root filepath))"

section \<open>The formatter in the words of the specification\<close>

text \<open>A string contains a reference token: a space, an opening bracket, one or more
  digits, a closing bracket.\<close>

definition contains_ref :: "string \<Rightarrow> bool" where
  "contains_ref s =
     (\<exists>a ds b. s = a @ '' ['' @ ds @ '']'' @ b \<and> ds \<noteq> [] \<and> (\<forall>c\<in>set ds. is_digit c))"

text \<open>The same, by trying the regular expression at every position.\<close>

fun has_ref :: "string \<Rightarrow> bool" where
  "has_ref [] = False"
| "has_ref (c # cs) = (match_ref (c # cs) \<noteq> None \<or> has_ref cs)"

text \<open>
  What replaces the token \<^verbatim>\<open> [ds]\<close>: the token itself when no extra has the description
  \<^verbatim>\<open>[ds]\<close>; for the first extra that has it, a reference to its file when it is in
  another file than the message, nothing when it is on the message's line, and
  \<^verbatim>\<open> (see line N)\<close> with \<open>N\<close> the line offset plus the extra's line otherwise.
\<close>

definition reference_text ::
  "platform \<Rightarrow> FlowMessage \<Rightarrow> FlowMessage list \<Rightarrow> string \<Rightarrow> string \<Rightarrow> int \<Rightarrow> string \<Rightarrow> string" where
  "reference_text P msg extras root v lineOffset ds =
     (case find (\<lambda>x. descr x = ''['' @ ds @ '']'') extras of
        None \<Rightarrow> '' ['' @ ds @ '']''
      | Some x \<Rightarrow>
          if path x \<noteq> path msg then '' (see '' @ formatSeePath P x root v @ '')''
          else if msg_line x = msg_line msg then []
          else '' (see line '' @ show_num (lineOffset + msg_line x) @ '')'')"

section \<open>Example inputs\<close>

text \<open>
  An environment for the examples: the checker prints \<open>out\<close> whatever it is given and
  \<^verbatim>\<open>JSON.parse\<close> reads it as \<open>p\<close> (the JSON text of an envelope is not written out: it is
  \<^verbatim>\<open><json>\<close> in the examples); paths are POSIX paths without \<^verbatim>\<open>.\<close> and \<^verbatim>\<open>..\<close>
  segments, on which \<^verbatim>\<open>path.resolve(root, f)\<close> is \<open>root\<close> for an empty \<open>f\<close>, \<open>f\<close> for an
  absolute \<open>f\<close>, and \<open>root/f\<close> otherwise.
\<close>

definition node_like :: "string option \<Rightarrow> parsed \<Rightarrow> platform" where
  "node_like out p =
     \<lparr>spawnSync = (\<lambda>args input. out),
      JSON_parse = (\<lambda>s. p),
      path_resolve = (\<lambda>root f. if f = [] then root
                                  else if hd f = CHR ''/'' then f else root @ ''/'' @ f),
      path_basename = (\<lambda>p. rev (takeWhile (\<lambda>c. c \<noteq> CHR ''/'') (rev p))),
      slash = map (\<lambda>c. if c = CHR 0x5C then CHR ''/'' else c),
      DEBUG_FLOWTYPE_ERRRORS = False\<rparr>"

definition empty_envelope :: envelope where
  "empty_envelope = \<lparr>errors = NotAnArray, exit = None, flowVersion = [], expressions = None\<rparr>"

text \<open>An error report of the checker: an object with \<^verbatim>\<open>exit\<close> and nothing else the module
  reads.\<close>

definition exit_envelope :: envelope where
  "exit_envelope =
     \<lparr>errors = NotAnArray,
      exit = Some \<lparr>exit_msg = Some ''Could not find a .flowconfig'', exit_code = Some 12\<rparr>,
      flowVersion = ''0.100.0'', expressions = None\<rparr>"

definition no_offset :: programOffset where
  "no_offset = \<lparr>off_line = 0, off_column = 0\<rparr>"

definition demo_loc :: "string option \<Rightarrow> FlowLoc" where
  "demo_loc src =
     \<lparr>source = src, start = \<lparr>line = 0, column = 4, offset = 4\<rparr>,
      end' = \<lparr>line = 2, column = 3, offset = 30\<rparr>, loc_type = SourceFile\<rparr>"

definition demo_message :: "string \<Rightarrow> FlowLoc option \<Rightarrow> FlowMessage" where
  "demo_message d l =
     \<lparr>path = ''/repo/a.js'', descr = d, msg_type = Blame, msg_line = 1, endline = 1, loc = l\<rparr>"

definition demo_error :: "FlowMessage \<Rightarrow> FlowError" where
  "demo_error m = \<lparr>message = [m], level = None, operation = None, extra = None\<rparr>"

definition demo_diag :: "string \<Rightarrow> string option \<Rightarrow> FlowError" where
  "demo_diag d src = demo_error (demo_message d (Some (demo_loc src)))"

text \<open>Three errors: one in the target file, one in another file, one without a source.\<close>

definition demo_errors :: "FlowError list" where
  "demo_errors =
     [demo_diag ''number is incompatible with string'' (Some ''a.js''),
      demo_diag ''number is incompatible with string'' (Some ''b.js''),
      demo_diag ''number is incompatible with string'' None]"

definition demo_envelope :: "FlowError list \<Rightarrow> envelope" where
  "demo_envelope es =
     \<lparr>errors = ErrorArray es, exit = None, flowVersion = ''0.100.0'', expressions = None\<rparr>"

definition demo_run :: "FlowError list \<Rightarrow> platform" where
  "demo_run es = node_like (Some ''<json>'') (JObject (demo_envelope es))"

definition demo_call :: "string \<Rightarrow> call" where
  "demo_call root =
     \<lparr>c_platform = node_like (Some ''<json>'') (JObject (demo_envelope [])), c_coverage = False,
      c_stdin = ''var x = 1'',
      c_root = root, c_stopOnExit = True, c_filepath = ''a.js'', c_offset = no_offset\<rparr>"

definition demo_offset :: programOffset where
  "demo_offset = \<lparr>off_line = 5, off_column = 10\<rparr>"

text \<open>An error whose operation has a location in the target file and whose first message
  has none.\<close>

definition demo_op_error :: "string \<Rightarrow> FlowError" where
  "demo_op_error d =
     \<lparr>message = [demo_message d None], level = None,
      operation = Some (demo_message ''call of method'' (Some (demo_loc (Some ''a.js'')))),
      extra = None\<rparr>"

text \<open>Two extras in the file of \<open>demo_message\<close>: \<^verbatim>\<open>[1]\<close> on its line, \<^verbatim>\<open>[2]\<close> on line 7.\<close>

definition demo_extras :: "FlowMessage list" where
  "demo_extras =
     [\<lparr>path = ''/repo/a.js'', descr = ''[1]'', msg_type = Blame, msg_line = 1, endline = 1, loc = None\<rparr>,
      \<lparr>path = ''/repo/a.js'', descr = ''[2]'', msg_type = Blame, msg_line = 7, endline = 7, loc = None\<rparr>]"

lemmas demo_defs = demo_loc_def demo_message_def demo_error_def demo_diag_def demo_envelope_def
  demo_run_def node_like_def no_offset_def proc0_def demo_offset_def

lemmas eval_defs = flow_answers_def flow_args_def collect_def spawnFlow_def keep_def
  mainLocOfError_def normalize_def message_text_def output_record_def newLoc_def shift_pos_def
  defaultPos_def determineRuleType_def toLowerCase_def lower_char_def FlowSeverity_Error_def
  bindE_def Let_def

section \<open>The Process Invoker\<close>

lemma spawnFlow_empty: "spawnFlow P mode [] root stop fp st = (SBool True, st)"
  by (simp add: spawnFlow_def)

lemma spawnFlow_no_stdout:
  "input \<noteq> [] \<Longrightarrow> no_stdout (spawnSync P (flow_args mode root fp) input) \<Longrightarrow>
   fst (spawnFlow P mode input root stop fp st) = SBool False"
  by (auto simp: spawnFlow_def no_stdout_def flow_args_def Let_def)

lemma spawnFlow_text:
  "input \<noteq> [] \<Longrightarrow> spawnSync P (flow_args mode root fp) input = Some out \<Longrightarrow> out \<noteq> [] \<Longrightarrow>
   fst (spawnFlow P mode input root stop fp st) = SText out"
  by (auto simp: spawnFlow_def flow_args_def Let_def)

lemma flow_answers_spawnFlow:
  "flow_answers P mode stdin root fp v \<Longrightarrow>
   \<exists>out. fst (spawnFlow P mode stdin root stop fp st) = SText out \<and> JSON_parse P out = v"
  by (auto simp: flow_answers_def spawnFlow_def flow_args_def Let_def split: option.splits)

text \<open>
  C7. With an empty input both entry points return \<^verbatim>\<open>true\<close> and leave the process state
  as it was, so no checker process is spawned (the log of spawned processes is part
  of the state). With a non-empty input for which the checker gives no standard output
  both return \<^verbatim>\<open>false\<close>. A well-formed envelope with no errors gives the empty array,
  which is a different value from \<^verbatim>\<open>false\<close>.
\<close>

theorem sentinels:
  "collect P [] root stop fp off st = (Inr (CBool True), st)
   \<and> coverage P [] root stop fp st = (Inr (VBool True), st)
   \<and> (stdin \<noteq> [] \<and> no_stdout (spawnSync P (flow_args ''check-contents'' root fp) stdin) \<longrightarrow>
        fst (collect P stdin root stop fp off st) = Inr (CBool False))
   \<and> (stdin \<noteq> [] \<and> no_stdout (spawnSync P (flow_args ''coverage'' root fp) stdin) \<longrightarrow>
        fst (coverage P stdin root stop fp st) = Inr (VBool False))
   \<and> (flow_answers P ''check-contents'' stdin root fp (JObject json) \<and> errors json = ErrorArray [] \<longrightarrow>
        fst (collect P stdin root stop fp off st) = Inr (COutput []))
   \<and> CBool False \<noteq> COutput [] \<and> CBool True \<noteq> CBool False"
proof -
  have a: "collect P [] root stop fp off st = (Inr (CBool True), st)"
    by (simp add: collect_def spawnFlow_empty)
  have b: "coverage P [] root stop fp st = (Inr (VBool True), st)"
    by (simp add: coverage_def spawnFlow_empty)
  have c: "fst (collect P stdin root stop fp off st) = Inr (CBool False)"
    if "stdin \<noteq> []" "no_stdout (spawnSync P (flow_args ''check-contents'' root fp) stdin)"
    using spawnFlow_no_stdout [OF that, of stop st]
    by (cases "spawnFlow P ''check-contents'' stdin root stop fp st") (simp add: collect_def)
  have d: "fst (coverage P stdin root stop fp st) = Inr (VBool False)"
    if "stdin \<noteq> []" "no_stdout (spawnSync P (flow_args ''coverage'' root fp) stdin)"
    using spawnFlow_no_stdout [OF that, of stop st]
    by (cases "spawnFlow P ''coverage'' stdin root stop fp st") (simp add: coverage_def)
  have e: "fst (collect P stdin root stop fp off st) = Inr (COutput [])"
    if h1: "flow_answers P ''check-contents'' stdin root fp (JObject json)"
      and h2: "errors json = ErrorArray []"
  proof -
    obtain out where "fst (spawnFlow P ''check-contents'' stdin root stop fp st) = SText out"
      "JSON_parse P out = JObject json"
      using flow_answers_spawnFlow [OF h1] by blast
    then show ?thesis using h2
      by (cases "spawnFlow P ''check-contents'' stdin root stop fp st") (simp add: collect_def bindE_def)
  qed
  from a b c d e show ?thesis by simp
qed

theorem sentinels_witness:
  "fst (collect (node_like None SyntaxError) ''var x = 1'' ''/repo'' True ''/repo/a.js'' no_offset proc0)
     = Inr (CBool False)
   \<and> fst (coverage (node_like (Some []) SyntaxError) ''var x = 1'' ''/repo'' True ''/repo/a.js'' proc0)
     = Inr (VBool False)
   \<and> fst (collect (demo_run []) ''var x = 1'' ''/repo'' True ''/repo/a.js'' no_offset proc0)
     = Inr (COutput [])"
  using sentinels [of "node_like None SyntaxError" "''/repo''" True "''/repo/a.js''" no_offset proc0 "''var x = 1''"]
    sentinels [of "node_like (Some []) SyntaxError" "''/repo''" True "''/repo/a.js''" no_offset proc0 "''var x = 1''"]
    sentinels [of "demo_run []" "''/repo''" True "''/repo/a.js''" no_offset proc0 "''var x = 1''"
       "demo_envelope []"]
  by (simp add: demo_defs no_stdout_def flow_answers_def)

section \<open>The exit hook\<close>

lemma snd_collect:
  "snd (collect P stdin root stop fp off st) = snd (spawnFlow P ''check-contents'' stdin root stop fp st)"
  by (simp add: collect_def
      split: prod.splits spawn_result.splits parsed.splits errors_field.splits option.splits)

lemma snd_coverage:
  "snd (coverage P stdin root stop fp st) = snd (spawnFlow P ''coverage'' stdin root stop fp st)"
  by (simp add: coverage_def split: prod.splits spawn_result.splits parsed.splits option.splits)

lemma invoke_spawnFlow:
  "invoke c st = snd (spawnFlow (c_platform c) (if c_coverage c then ''coverage'' else ''check-contents'')
                        (c_stdin c) (c_root c) (c_stopOnExit c) (c_filepath c) st)"
  by (simp add: invoke_def snd_collect snd_coverage)

lemma invoke_hooks:
  "exit_hooks (invoke c st) =
     (if captures c \<and> c_stopOnExit c \<and> \<not> didExecute st then exit_hooks st @ [c_root c]
      else exit_hooks st)"
  by (auto simp: invoke_spawnFlow spawnFlow_def onExit_def captures_def no_stdout_def flow_args_def
        Let_def split: option.splits)

lemma invoke_flag:
  "didExecute (invoke c st) = (didExecute st \<or> (captures c \<and> c_stopOnExit c))"
  by (auto simp: invoke_spawnFlow spawnFlow_def onExit_def captures_def no_stdout_def flow_args_def
        Let_def split: option.splits)

lemma run_calls_flag_set:
  "didExecute st \<Longrightarrow> didExecute (run_calls cs st) \<and> exit_hooks (run_calls cs st) = exit_hooks st"
  unfolding run_calls_def
  by (induction cs arbitrary: st) (simp_all add: invoke_hooks invoke_flag)

lemma run_calls_inv:
  "(didExecute st \<longrightarrow> length (exit_hooks st) \<le> 1) \<Longrightarrow> (\<not> didExecute st \<longrightarrow> exit_hooks st = []) \<Longrightarrow>
   (didExecute (run_calls cs st) \<longrightarrow> length (exit_hooks (run_calls cs st)) \<le> 1) \<and>
   (\<not> didExecute (run_calls cs st) \<longrightarrow> exit_hooks (run_calls cs st) = [])"
  unfolding run_calls_def
proof (induction cs arbitrary: st)
  case Nil
  then show ?case by simp
next
  case (Cons c cs)
  have "didExecute (invoke c st) \<longrightarrow> length (exit_hooks (invoke c st)) \<le> 1"
       "\<not> didExecute (invoke c st) \<longrightarrow> exit_hooks (invoke c st) = []"
    using Cons.prems by (auto simp: invoke_hooks invoke_flag)
  from Cons.IH [OF this] show ?case by simp
qed

text \<open>
  C9, as the code has it. In a process that starts with no listener, any sequence of
  invocations leaves at most one exit listener. Once the flag \<^verbatim>\<open>didExecute\<close> is set it
  stays set and no invocation adds a listener. An invocation adds the listener for its
  own root exactly when it asks for it (\<^verbatim>\<open>stopOnExit\<close>), has input, the checker prints
  a text, and the flag is not yet set; an invocation that does not ask for it, has no
  input or gets no text leaves flag and listeners as they were.
\<close>

theorem exit_hook_once:
  "length (exit_hooks (run_calls cs proc0)) \<le> 1
   \<and> (didExecute st \<longrightarrow>
        didExecute (run_calls cs st) \<and> exit_hooks (run_calls cs st) = exit_hooks st)
   \<and> (\<not> didExecute st \<and> c_stopOnExit c \<and> captures c \<longrightarrow>
        didExecute (invoke c st) \<and> exit_hooks (invoke c st) = exit_hooks st @ [c_root c])
   \<and> (\<not> (c_stopOnExit c \<and> captures c) \<longrightarrow>
        didExecute (invoke c st) = didExecute st \<and> exit_hooks (invoke c st) = exit_hooks st)"
proof -
  have "length (exit_hooks (run_calls cs proc0)) \<le> 1"
    using run_calls_inv [of proc0 cs]
    by (cases "didExecute (run_calls cs proc0)") (simp_all add: proc0_def)
  then show ?thesis
    by (auto simp add: run_calls_flag_set invoke_hooks invoke_flag)
qed

theorem exit_hook_once_witness:
  "length (exit_hooks (run_calls [demo_call ''/a'', demo_call ''/b''] proc0)) \<le> 1
   \<and> didExecute (invoke (demo_call ''/a'') proc0)
   \<and> exit_hooks (invoke (demo_call ''/a'') proc0) = [''/a'']
   \<and> exit_hooks (run_calls [demo_call ''/b''] (invoke (demo_call ''/a'') proc0)) = [''/a'']"
  using exit_hook_once [of "[demo_call ''/a'', demo_call ''/b'']" proc0 "demo_call ''/a''"]
    exit_hook_once [of "[demo_call ''/b'']" "invoke (demo_call ''/a'') proc0" "demo_call ''/a''"]
  by (simp add: captures_def demo_call_def demo_defs no_stdout_def)

text \<open>
  C9 as stated fails: two invocations with \<^verbatim>\<open>stopOnExit\<close>, the first for the root
  \<^verbatim>\<open>/a\<close> and the second for \<^verbatim>\<open>/b\<close>, both answered by the checker. The second asks for a
  listener for \<^verbatim>\<open>/b\<close>, and the only listener of the process is the one for \<^verbatim>\<open>/a\<close>.
\<close>

theorem exit_hook_second_root:
  "c_stopOnExit (demo_call ''/b'') \<and> captures (demo_call ''/b'')
   \<and> exit_hooks (run_calls [demo_call ''/a'', demo_call ''/b''] proc0) = [''/a'']
   \<and> ''/b'' \<notin> set (exit_hooks (run_calls [demo_call ''/a'', demo_call ''/b''] proc0))"
  by (simp add: run_calls_def invoke_hooks invoke_flag captures_def demo_call_def demo_defs
      no_stdout_def)

section \<open>Malformed output of the checker\<close>

text \<open>
  C5. When the checker's text is not JSON, \<^verbatim>\<open>collect\<close> returns (it does not throw) the
  array of one fatal element: level \<^verbatim>\<open>error\<close>, message \<^verbatim>\<open>Flow returned invalid json\<close>,
  location from line 1, column 1 to line 1, column 1.
\<close>

theorem collect_invalid_json:
  assumes "flow_answers P ''check-contents'' stdin root fp SyntaxError"
  shows "fst (collect P stdin root stop fp off st) =
           Inr (COutput [Fatal \<lparr>fatal_level = ''error'',
                                 fatal_loc = \<lparr>loc_start = \<lparr>pos_line = 1, pos_column = 1\<rparr>,
                                              loc_end = \<lparr>pos_line = 1, pos_column = 1\<rparr>\<rparr>,
                                 fatal_message = ''Flow returned invalid json''\<rparr>])"
proof -
  obtain out where "fst (spawnFlow P ''check-contents'' stdin root stop fp st) = SText out"
    "JSON_parse P out = SyntaxError"
    using flow_answers_spawnFlow [OF assms] by blast
  then show ?thesis
    by (cases "spawnFlow P ''check-contents'' stdin root stop fp st")
       (simp add: collect_def fatalError_def FlowSeverity_Error_def)
qed

theorem collect_invalid_json_witness:
  "fst (collect (node_like (Some ''not json'') SyntaxError) ''var x = 1'' ''/repo'' False ''/repo/a.js''
          no_offset proc0) =
     Inr (COutput [Fatal \<lparr>fatal_level = ''error'',
                           fatal_loc = \<lparr>loc_start = \<lparr>pos_line = 1, pos_column = 1\<rparr>,
                                        loc_end = \<lparr>pos_line = 1, pos_column = 1\<rparr>\<rparr>,
                           fatal_message = ''Flow returned invalid json''\<rparr>])"
  using collect_invalid_json [of "node_like (Some ''not json'') SyntaxError" "''var x = 1''" "''/repo''"
      "''/repo/a.js''" False no_offset proc0]
  by (simp add: flow_answers_def node_like_def)

text \<open>
  When the text is JSON other than \<^verbatim>\<open>null\<close> and its \<^verbatim>\<open>errors\<close> is not an array,
  \<^verbatim>\<open>collect\<close> returns one fatal element, with the message built from \<^verbatim>\<open>exit\<close> when
  there is one and the message \<^verbatim>\<open>Flow returned invalid json\<close> otherwise.
\<close>

lemma collect_not_array:
  assumes "flow_answers P ''check-contents'' stdin root fp (JObject json)"
    and "errors json = NotAnArray"
  shows "fst (collect P stdin root stop fp off st) =
     Inr (COutput [Fatal \<lparr>fatal_level = ''error'',
                           fatal_loc = \<lparr>loc_start = \<lparr>pos_line = 1, pos_column = 1\<rparr>,
                                        loc_end = \<lparr>pos_line = 1, pos_column = 1\<rparr>\<rparr>,
                           fatal_message =
                             (case exit json of
                                None \<Rightarrow> ''Flow returned invalid json''
                              | Some ex \<Rightarrow>
                                  ''Flow returned an error: ''
                                  @ (case exit_msg ex of None \<Rightarrow> ''undefined'' | Some s \<Rightarrow> s)
                                  @ '' (code: ''
                                  @ (case exit_code ex of None \<Rightarrow> ''undefined'' | Some n \<Rightarrow> show_num n)
                                  @ '')'')\<rparr>])"
proof -
  obtain out where "fst (spawnFlow P ''check-contents'' stdin root stop fp st) = SText out"
    "JSON_parse P out = JObject json"
    using flow_answers_spawnFlow [OF assms(1)] by blast
  then show ?thesis using assms(2)
    by (cases "spawnFlow P ''check-contents'' stdin root stop fp st")
       (simp add: collect_def fatalError_def FlowSeverity_Error_def split: option.splits)
qed

text \<open>
  C6, the failing input. The checker prints the text \<^verbatim>\<open>null\<close>, which is JSON;
  \<^verbatim>\<open>json.errors\<close> is then read on \<^verbatim>\<open>null\<close>, outside the \<^verbatim>\<open>try\<close>, and \<^verbatim>\<open>collect\<close> throws
  a \<^verbatim>\<open>TypeError\<close> where the claim has it return the fatal element.
\<close>

theorem collect_null_raises:
  "fst (collect (node_like (Some ''null'') JNull) ''var x = 1'' ''/repo'' False ''/repo/a.js''
          no_offset proc0) = Inl TypeError"
  by (simp add: collect_def spawnFlow_def node_like_def Let_def)

section \<open>Coverage\<close>

text \<open>What \<^verbatim>\<open>coverage\<close> returns once the checker has printed a text.\<close>

lemma coverage_cases:
  assumes "stdin \<noteq> []" "spawnSync P (flow_args ''coverage'' root fp) stdin = Some out" "out \<noteq> []"
  shows "fst (coverage P stdin root stop fp st) =
     (case JSON_parse P out of
        SyntaxError \<Rightarrow> Inr (VCounts \<lparr>coveredCount = 0, uncoveredCount = 0\<rparr>)
      | JNull \<Rightarrow> Inr (VCounts \<lparr>coveredCount = 0, uncoveredCount = 0\<rparr>)
      | JObject json \<Rightarrow>
          (case expressions json of
             None \<Rightarrow> Inl TypeError
           | Some ex \<Rightarrow> Inr (VCounts \<lparr>coveredCount = covered_count ex,
                                         uncoveredCount = uncovered_count ex\<rparr>)))"
  using spawnFlow_text [OF assms, of stop st]
  by (cases "spawnFlow P ''coverage'' stdin root stop fp st")
     (simp add: coverage_def split: parsed.splits option.splits)

text \<open>
  C4, the failing input. The checker prints \<^verbatim>\<open>{}\<close>: the text parses, the object has no
  \<^verbatim>\<open>expressions\<close>, and \<^verbatim>\<open>expressions.covered_count\<close>, read after the \<^verbatim>\<open>try\<close>, throws a
  \<^verbatim>\<open>TypeError\<close> where the claim has \<^verbatim>\<open>coverage\<close> return zero counts. The same happens for
  an error report of the checker, the object with \<^verbatim>\<open>exit\<close> that \<^verbatim>\<open>collect\<close> turns into a
  fatal element.
\<close>

theorem coverage_without_expressions_raises:
  "fst (coverage (node_like (Some ''{}'') (JObject empty_envelope)) ''var x = 1'' ''/repo'' False
          ''/repo/a.js'' proc0) = Inl TypeError
   \<and> fst (coverage (node_like (Some ''<json>'') (JObject exit_envelope)) ''var x = 1'' ''/repo'' False
          ''/repo/a.js'' proc0) = Inl TypeError"
  by (simp add: coverage_def spawnFlow_def node_like_def empty_envelope_def exit_envelope_def Let_def)

section \<open>The pipeline of \<^verbatim>\<open>collect\<close>\<close>

lemma bindE_Inr_iff: "bindE r f = Inr y \<longleftrightarrow> (\<exists>v. r = Inr v \<and> f v = Inr y)"
  by (cases r) (simp_all add: bindE_def)

lemma mapE_Inr_iff: "mapE f xs = Inr ys \<longleftrightarrow> list_all2 (\<lambda>x y. f x = Inr y) xs ys"
proof (induction xs arbitrary: ys)
  case Nil
  show ?case by auto
next
  case (Cons x xs)
  show ?case
    by (cases ys) (auto simp: bindE_Inr_iff Cons.IH)
qed

lemma filterE_total: "\<forall>x\<in>set xs. p x = Inr (q x) \<Longrightarrow> filterE p xs = Inr (filter q xs)"
  by (induction xs) (simp_all add: bindE_def)

lemma filterE_mem: "filterE p xs = Inr ys \<Longrightarrow> x \<in> set ys \<longleftrightarrow> x \<in> set xs \<and> p x = Inr True"
proof (induction xs arbitrary: ys)
  case Nil
  then show ?case by simp
next
  case (Cons a xs)
  from Cons.prems obtain b zs where b: "p a = Inr b" and zs: "filterE p xs = Inr zs"
    and ys: "ys = (if b then a # zs else zs)"
    by (auto simp: bindE_Inr_iff)
  have IH: "x \<in> set zs \<longleftrightarrow> x \<in> set xs \<and> p x = Inr True" by (rule Cons.IH [OF zs])
  show ?case
  proof (cases b)
    case True
    with b ys IH show ?thesis by auto
  next
    case False
    with b ys IH show ?thesis by auto
  qed
qed

lemma collect_pipeline:
  assumes "flow_answers P ''check-contents'' stdin root fp (JObject json)"
    and "errors json = ErrorArray errs"
  shows "fst (collect P stdin root stop fp off st) =
           bindE (filterE (keep P root (path_resolve P root fp)) errs) (\<lambda>kept.
             bindE (mapE (normalize P json root off) kept) (\<lambda>out. Inr (COutput out)))"
proof -
  obtain out where "fst (spawnFlow P ''check-contents'' stdin root stop fp st) = SText out"
    "JSON_parse P out = JObject json"
    using flow_answers_spawnFlow [OF assms(1)] by blast
  then show ?thesis using assms(2)
    by (cases "spawnFlow P ''check-contents'' stdin root stop fp st") (simp add: collect_def)
qed

lemma collect_output_iff:
  assumes "flow_answers P ''check-contents'' stdin root fp (JObject json)"
    and "errors json = ErrorArray errs"
  shows "fst (collect P stdin root stop fp off st) = Inr (COutput out) \<longleftrightarrow>
           (\<exists>kept. filterE (keep P root (path_resolve P root fp)) errs = Inr kept
                  \<and> list_all2 (\<lambda>e el. normalize P json root off e = Inr el) kept out)"
  by (simp add: collect_pipeline [OF assms] bindE_Inr_iff mapE_Inr_iff)

lemma normalize_Inr:
  assumes "normalize P json root off e = Inr el"
  shows "\<exists>m ms msg. message e = m # ms \<and> message_text P json root off e m = Inr msg
           \<and> el = Diag (output_record P json off e m msg)"
proof (cases "message e")
  case Nil
  with assms show ?thesis by (simp add: normalize_def)
next
  case (Cons m ms)
  with assms show ?thesis by (auto simp: normalize_def bindE_Inr_iff)
qed

section \<open>The filter\<close>

lemma str_includes_sublist: "str_includes s sub = sublist sub s"
  by (induction s) (simp_all add: sublist_Cons_right)

lemma mainLocOfError_primary:
  "message e \<noteq> [] \<Longrightarrow> mainLocOfError e = Inr (primary_loc e)"
  by (cases "message e") (simp_all add: mainLocOfError_def primary_loc_def split: option.splits)

lemma keep_filter_keeps:
  assumes "message e \<noteq> []"
  shows "keep P root (path_resolve P root fp) e = Inr (filter_keeps P root fp e)"
proof -
  obtain m ms where m: "message e = m # ms" using assms by (cases "message e") auto
  show ?thesis
  proof (cases "primary_source e")
    case None
    then show ?thesis
      by (simp add: keep_def mainLocOfError_primary [OF assms] bindE_def filter_keeps_def
          primary_source_def)
  next
    case (Some src)
    then show ?thesis using m
      by (simp add: keep_def mainLocOfError_primary [OF assms] bindE_def filter_keeps_def
          primary_source_def)
  qed
qed

text \<open>On an envelope whose errors all have a first message the filter does not throw,
  and \<^verbatim>\<open>collect\<close> is the \<^verbatim>\<open>map\<close> over the errors that meet the condition.\<close>

lemma collect_filter_equation:
  assumes "flow_answers P ''check-contents'' stdin root fp (JObject json)"
    and "errors json = ErrorArray errs"
    and "\<forall>e\<in>set errs. message e \<noteq> []"
  shows "fst (collect P stdin root stop fp off st) =
           bindE (mapE (normalize P json root off) (filter (filter_keeps P root fp) errs))
             (\<lambda>out. Inr (COutput out))
         \<and> (\<forall>e\<in>set (filter (filter_keeps P root fp) errs).
               \<exists>src. primary_source e = Some src
                     \<and> path_resolve P root src = path_resolve P root fp)"
proof -
  have "filterE (keep P root (path_resolve P root fp)) errs = Inr (filter (filter_keeps P root fp) errs)"
    using assms(3) by (intro filterE_total) (simp add: keep_filter_keeps)
  then have "fst (collect P stdin root stop fp off st) =
           bindE (mapE (normalize P json root off) (filter (filter_keeps P root fp) errs))
             (\<lambda>out. Inr (COutput out))"
    by (simp add: collect_pipeline [OF assms(1,2)] bindE_def)
  moreover have "\<exists>src. primary_source e = Some src \<and> path_resolve P root src = path_resolve P root fp"
    if "filter_keeps P root fp e" for e
    using that by (auto simp: filter_keeps_def split: option.splits list.splits)
  ultimately show ?thesis by simp
qed

lemma keep_Inr:
  assumes "keep P root (path_resolve P root fp) e = Inr b"
  shows "b = filter_keeps P root fp e"
proof (cases "message e")
  case (Cons m ms)
  then have "message e \<noteq> []" by simp
  from keep_filter_keeps [OF this, of P root fp] assms show ?thesis by simp
next
  case Nil
  show ?thesis
  proof (cases "case operation e of None \<Rightarrow> None | Some opn \<Rightarrow> loc opn")
    case None
    with Nil assms show ?thesis by (simp add: keep_def mainLocOfError_def bindE_def)
  next
    case (Some l)
    then have p: "primary_source e = source l" by (simp add: primary_source_def primary_loc_def)
    show ?thesis
    proof (cases "source l")
      case None
      with Nil Some assms p show ?thesis
        by (simp add: keep_def mainLocOfError_def bindE_def filter_keeps_def)
    next
      case src: (Some src)
      with Nil Some assms p show ?thesis
        by (cases "src = []") (simp_all add: keep_def mainLocOfError_def bindE_def filter_keeps_def)
    qed
  qed
qed

lemma filterE_Inr_filter:
  "filterE p xs = Inr ys \<Longrightarrow> (\<And>x b. p x = Inr b \<Longrightarrow> b = q x) \<Longrightarrow> ys = filter q xs"
proof (induction xs arbitrary: ys)
  case Nil
  then show ?case by simp
next
  case (Cons a xs)
  from Cons.prems(1) obtain b zs where b: "p a = Inr b" and zs: "filterE p xs = Inr zs"
    and ys: "ys = (if b then a # zs else zs)"
    by (auto simp: bindE_Inr_iff)
  have "zs = filter q xs" by (rule Cons.IH [OF zs Cons.prems(2)])
  moreover have "b = q a" by (rule Cons.prems(2) [OF b])
  ultimately show ?case using ys by simp
qed

lemma filter_keeps_iff:
  "filter_keeps P root fp e \<longleftrightarrow>
     (\<exists>l src m ms. primary_loc e = Some l \<and> source l = Some src \<and> src \<noteq> []
        \<and> message e = m # ms \<and> descr m \<noteq> []
        \<and> \<not> str_includes (descr m) ''inconsistent use of''
        \<and> path_resolve P root src = path_resolve P root fp)"
  by (auto simp: filter_keeps_def primary_source_def split: option.splits list.splits)

text \<open>
  C1, as the code has it. Whenever \<^verbatim>\<open>collect\<close> returns its array for a parsed envelope,
  the output is, in order, the records of exactly the errors that meet the condition:
  the primary location (the operation's location if present, else the first message's)
  has a source that is neither null nor the empty string, the first description is
  not empty and does not contain \<^verbatim>\<open>inconsistent use of\<close>, and the source resolved against
  the root equals the file path resolved against the root. So an error whose primary
  source does not resolve to the target file is not among the errors of the output.
  (\<^verbatim>\<open>collect\<close> does not return when a callback throws: an error without a first
  message, or an extra without one that a reference token makes the formatter read.)
\<close>

theorem collect_filter:
  assumes "flow_answers P ''check-contents'' stdin root fp (JObject json)"
    and "errors json = ErrorArray errs"
    and "fst (collect P stdin root stop fp off st) = Inr (COutput out)"
  shows "list_all2 (\<lambda>e el. normalize P json root off e = Inr el)
           (filter (filter_keeps P root fp) errs) out
         \<and> (\<forall>e. filter_keeps P root fp e \<longleftrightarrow>
               (\<exists>l src m ms. primary_loc e = Some l \<and> source l = Some src \<and> src \<noteq> []
                  \<and> message e = m # ms \<and> descr m \<noteq> []
                  \<and> \<not> str_includes (descr m) ''inconsistent use of''
                  \<and> path_resolve P root src = path_resolve P root fp))
         \<and> (\<forall>e\<in>set errs.
               (\<forall>src. primary_source e = Some src \<longrightarrow>
                  path_resolve P root src \<noteq> path_resolve P root fp) \<longrightarrow>
               e \<notin> set (filter (filter_keeps P root fp) errs))"
    (is "?images \<and> ?condition \<and> ?other_file")
proof -
  from assms obtain kept where k: "filterE (keep P root (path_resolve P root fp)) errs = Inr kept"
    and n: "list_all2 (\<lambda>e el. normalize P json root off e = Inr el) kept out"
    by (auto simp: collect_output_iff)
  have "kept = filter (filter_keeps P root fp) errs"
    using k by (rule filterE_Inr_filter) (rule keep_Inr)
  with n have a: ?images by simp
  have b: ?condition by (rule allI) (rule filter_keeps_iff)
  have c: "\<not> filter_keeps P root fp e"
    if "\<forall>src. primary_source e = Some src \<longrightarrow> path_resolve P root src \<noteq> path_resolve P root fp" for e
    using that by (auto simp: filter_keeps_def split: option.splits list.splits)
  then have ?other_file by simp
  with a b show ?thesis by (intro conjI)
qed

theorem collect_filter_witness:
  "fst (collect (demo_run demo_errors) ''var x = 1'' ''/repo'' False ''/repo/a.js'' no_offset proc0) =
     Inr (COutput [Diag \<lparr>out_debug = None, out_type = ''default'', out_level = ''error'',
                          out_message = ''number is incompatible with string'',
                          out_path = ''/repo/a.js'', out_start = 0, out_end = 2,
                          out_loc = \<lparr>new_start = \<lparr>line = 0, column = 4, offset = 4\<rparr>,
                                     new_end = \<lparr>line = 2, column = 3, offset = 30\<rparr>\<rparr>\<rparr>])
   \<and> filter (filter_keeps (demo_run demo_errors) ''/repo'' ''/repo/a.js'') demo_errors =
       [demo_diag ''number is incompatible with string'' (Some ''a.js'')]
   \<and> list_all2 (\<lambda>e el. normalize (demo_run demo_errors) (demo_envelope demo_errors) ''/repo''
                           no_offset e = Inr el)
       (filter (filter_keeps (demo_run demo_errors) ''/repo'' ''/repo/a.js'') demo_errors)
       [Diag \<lparr>out_debug = None, out_type = ''default'', out_level = ''error'',
               out_message = ''number is incompatible with string'',
               out_path = ''/repo/a.js'', out_start = 0, out_end = 2,
               out_loc = \<lparr>new_start = \<lparr>line = 0, column = 4, offset = 4\<rparr>,
                          new_end = \<lparr>line = 2, column = 3, offset = 30\<rparr>\<rparr>\<rparr>]"
  using collect_filter [of "demo_run demo_errors" "''var x = 1''" "''/repo''" "''/repo/a.js''"
      "demo_envelope demo_errors" demo_errors False no_offset proc0
      "[Diag \<lparr>out_debug = None, out_type = ''default'', out_level = ''error'',
               out_message = ''number is incompatible with string'',
               out_path = ''/repo/a.js'', out_start = 0, out_end = 2,
               out_loc = \<lparr>new_start = \<lparr>line = 0, column = 4, offset = 4\<rparr>,
                          new_end = \<lparr>line = 2, column = 3, offset = 30\<rparr>\<rparr>\<rparr>]"]
  by (simp add: demo_errors_def demo_defs eval_defs filter_keeps_def primary_source_def
      primary_loc_def)

text \<open>
  C1 as stated fails: an error whose primary source is the empty string, checked for
  the file path \<^verbatim>\<open>''\<close>. The source is not null, the description is not empty and is not
  the suppressed one, and both paths are resolved by the same call
  \<^verbatim>\<open>path.resolve(root, '')\<close>, so the stated condition holds; the filter's test of
  \<^verbatim>\<open>mainFile\<close> is false for the empty string and the error is dropped.
\<close>

theorem empty_source_dropped:
  "claimed_keep (demo_run [demo_diag ''number is incompatible with string'' (Some [])]) ''/repo'' []
      (demo_diag ''number is incompatible with string'' (Some []))
   \<and> fst (collect (demo_run [demo_diag ''number is incompatible with string'' (Some [])])
            ''var x = 1'' ''/repo'' False [] no_offset proc0) = Inr (COutput [])"
  by (simp add: demo_defs claimed_keep_def primary_source_def primary_loc_def collect_def spawnFlow_def
      keep_def mainLocOfError_def bindE_def Let_def)

section \<open>Locations\<close>

lemma list_all2_mem1: "list_all2 R xs ys \<Longrightarrow> x \<in> set xs \<Longrightarrow> \<exists>y\<in>set ys. R x y"
  by (induction rule: list_all2_induct) auto

lemma list_all2_mem2: "list_all2 R xs ys \<Longrightarrow> y \<in> set ys \<Longrightarrow> \<exists>x\<in>set xs. R x y"
  by (induction rule: list_all2_induct) auto

lemma newLoc_Some:
  "loc m = Some l \<Longrightarrow>
   newLoc off m =
     \<lparr>new_start = \<lparr>line = line (start l) + off_line off,
                    column = (if line (start l) = 0 then column (start l) + off_column off
                              else column (start l)),
                    offset = offset (start l)\<rparr>,
      new_end = \<lparr>line = line (end' l) + off_line off,
                  column = (if line (end' l) = 0 then column (end' l) + off_column off
                            else column (end' l)),
                  offset = offset (end' l)\<rparr>\<rparr>"
  by (simp add: newLoc_def shift_pos_def)

lemma newLoc_None:
  "loc m = None \<Longrightarrow>
   newLoc off m =
     \<lparr>new_start = \<lparr>line = 1 + off_line off, column = 1, offset = 0\<rparr>,
      new_end = \<lparr>line = 1 + off_line off, column = 1, offset = 0\<rparr>\<rparr>"
  by (simp add: newLoc_def shift_pos_def defaultPos_def)

text \<open>The record of one error whose first message has a location.\<close>

lemma normalize_location:
  assumes "normalize P json root off e = Inr el" and "message e = m # ms" and "loc m = Some l"
  shows "\<exists>d. el = Diag d
            \<and> out_start d = line (start l) + off_line off
            \<and> out_end d = line (end' l) + off_line off
            \<and> out_loc d =
                \<lparr>new_start =
                   \<lparr>line = line (start l) + off_line off,
                    column = (if line (start l) = 0 then column (start l) + off_column off
                              else column (start l)),
                    offset = offset (start l)\<rparr>,
                 new_end =
                   \<lparr>line = line (end' l) + off_line off,
                    column = (if line (end' l) = 0 then column (end' l) + off_column off
                              else column (end' l)),
                    offset = offset (end' l)\<rparr>\<rparr>"
proof -
  from normalize_Inr [OF assms(1)] assms(2) obtain msg where
    "el = Diag (output_record P json off e m msg)" by auto
  then show ?thesis
    by (simp add: output_record_def newLoc_Some [OF assms(3)])
qed

text \<open>
  C2. Every error that passes the filter and whose first message has a location gives
  an output record whose \<^verbatim>\<open>start\<close> and \<^verbatim>\<open>end\<close> are the location's start and end line plus
  the offset's line, and whose \<^verbatim>\<open>loc\<close> has these lines, the columns increased by the
  offset's column exactly where the original line is 0, and the offsets of the
  location. The errors that pass the filter and the output correspond in order.
\<close>

theorem offset_location:
  assumes "flow_answers P ''check-contents'' stdin root fp (JObject json)"
    and "errors json = ErrorArray errs"
    and "fst (collect P stdin root stop fp off st) = Inr (COutput out)"
  shows "\<exists>kept. filterE (keep P root (path_resolve P root fp)) errs = Inr kept \<and>
           list_all2
             (\<lambda>e el. \<forall>m ms l. message e = m # ms \<and> loc m = Some l \<longrightarrow>
                (\<exists>d. el = Diag d
                    \<and> out_start d = line (start l) + off_line off
                    \<and> out_end d = line (end' l) + off_line off
                    \<and> out_loc d =
                        \<lparr>new_start =
                           \<lparr>line = line (start l) + off_line off,
                            column = (if line (start l) = 0 then column (start l) + off_column off
                                      else column (start l)),
                            offset = offset (start l)\<rparr>,
                         new_end =
                           \<lparr>line = line (end' l) + off_line off,
                            column = (if line (end' l) = 0 then column (end' l) + off_column off
                                      else column (end' l)),
                            offset = offset (end' l)\<rparr>\<rparr>))
             kept out"
    (is "\<exists>kept. _ \<and> list_all2 ?shifted kept out")
proof -
  from assms obtain kept where k: "filterE (keep P root (path_resolve P root fp)) errs = Inr kept"
    and n: "list_all2 (\<lambda>e el. normalize P json root off e = Inr el) kept out"
    by (auto simp: collect_output_iff)
  from n have "list_all2 ?shifted kept out"
    by (rule list_all2_mono) (blast intro: normalize_location)
  with k show ?thesis by blast
qed

theorem offset_location_witness:
  "fst (collect (demo_run [demo_diag ''number is incompatible with string'' (Some ''a.js'')])
          ''var x = 1'' ''/repo'' False ''/repo/a.js'' demo_offset proc0) =
     Inr (COutput [Diag \<lparr>out_debug = None, out_type = ''default'', out_level = ''error'',
                          out_message = ''number is incompatible with string'',
                          out_path = ''/repo/a.js'', out_start = 5, out_end = 7,
                          out_loc = \<lparr>new_start = \<lparr>line = 5, column = 14, offset = 4\<rparr>,
                                     new_end = \<lparr>line = 7, column = 3, offset = 30\<rparr>\<rparr>\<rparr>])
   \<and> (\<exists>kept. filterE (keep (demo_run [demo_diag ''number is incompatible with string'' (Some ''a.js'')])
                        ''/repo'' ''/repo/a.js'')
                [demo_diag ''number is incompatible with string'' (Some ''a.js'')] = Inr kept
             \<and> length kept = 1)"
  using offset_location [of "demo_run [demo_diag ''number is incompatible with string'' (Some ''a.js'')]"
      "''var x = 1''" "''/repo''" "''/repo/a.js''"
      "demo_envelope [demo_diag ''number is incompatible with string'' (Some ''a.js'')]"
      "[demo_diag ''number is incompatible with string'' (Some ''a.js'')]" False demo_offset proc0
      "[Diag \<lparr>out_debug = None, out_type = ''default'', out_level = ''error'',
                          out_message = ''number is incompatible with string'',
                          out_path = ''/repo/a.js'', out_start = 5, out_end = 7,
                          out_loc = \<lparr>new_start = \<lparr>line = 5, column = 14, offset = 4\<rparr>,
                                     new_end = \<lparr>line = 7, column = 3, offset = 30\<rparr>\<rparr>\<rparr>]"]
  by (simp add: demo_defs eval_defs)

lemma normalize_ignores_operation:
  "normalize P json root off (e\<lparr>operation := opn'\<rparr>) = normalize P json root off e"
proof -
  have "message_text P json root off (e\<lparr>operation := opn'\<rparr>) m = message_text P json root off e m"
    and "output_record P json off (e\<lparr>operation := opn'\<rparr>) m msg = output_record P json off e m msg"
    for m msg
    by (simp_all add: message_text_def output_record_def)
  then show ?thesis by (simp add: normalize_def split: list.split)
qed

text \<open>
  C10, as the code has it. An error whose operation has a location with a non-empty
  source that resolves to the target file, whose first message has no location, and
  whose first description is not empty and does not contain \<^verbatim>\<open>inconsistent use of\<close>,
  passes the filter; when \<^verbatim>\<open>collect\<close> returns, the error's record is in the output with
  the default location moved by the offset's line (line 1 + offset line, column 1,
  offset 0, for start and end). The record does not depend on the operation at all.
\<close>

theorem operation_decides_filter_only:
  assumes "flow_answers P ''check-contents'' stdin root fp (JObject json)"
    and "errors json = ErrorArray errs"
    and "e \<in> set errs"
    and "operation e = Some opn" and "loc opn = Some l" and "source l = Some src" and "src \<noteq> []"
    and "path_resolve P root src = path_resolve P root fp"
    and "message e = m # ms" and "loc m = None"
    and "descr m \<noteq> []" and "\<not> str_includes (descr m) ''inconsistent use of''"
    and "fst (collect P stdin root stop fp off st) = Inr (COutput out)"
  shows "keep P root (path_resolve P root fp) e = Inr True
         \<and> (\<exists>d. Diag d \<in> set out \<and> normalize P json root off e = Inr (Diag d)
                \<and> out_loc d = \<lparr>new_start = \<lparr>line = 1 + off_line off, column = 1, offset = 0\<rparr>,
                                  new_end = \<lparr>line = 1 + off_line off, column = 1, offset = 0\<rparr>\<rparr>
                \<and> out_start d = 1 + off_line off \<and> out_end d = 1 + off_line off)
         \<and> (\<forall>opn'. normalize P json root off (e\<lparr>operation := opn'\<rparr>) = normalize P json root off e)"
proof -
  have kp: "keep P root (path_resolve P root fp) e = Inr True"
    using assms(4-12) by (simp add: keep_def mainLocOfError_def bindE_def)
  from assms(1,2,13) obtain kept where
    k: "filterE (keep P root (path_resolve P root fp)) errs = Inr kept"
    and n: "list_all2 (\<lambda>e el. normalize P json root off e = Inr el) kept out"
    by (auto simp: collect_output_iff)
  from filterE_mem [OF k, of e] kp assms(3) have "e \<in> set kept" by simp
  from list_all2_mem1 [OF n this] obtain el where el: "el \<in> set out"
    and ne: "normalize P json root off e = Inr el" by blast
  from normalize_Inr [OF ne] assms(9) obtain msg where
    d: "el = Diag (output_record P json off e m msg)" by auto
  have "Diag (output_record P json off e m msg) \<in> set out
        \<and> normalize P json root off e = Inr (Diag (output_record P json off e m msg))
        \<and> out_loc (output_record P json off e m msg) =
            \<lparr>new_start = \<lparr>line = 1 + off_line off, column = 1, offset = 0\<rparr>,
             new_end = \<lparr>line = 1 + off_line off, column = 1, offset = 0\<rparr>\<rparr>
        \<and> out_start (output_record P json off e m msg) = 1 + off_line off
        \<and> out_end (output_record P json off e m msg) = 1 + off_line off"
    using el ne d by (simp add: output_record_def newLoc_None [OF assms(10)])
  then have "\<exists>d. Diag d \<in> set out \<and> normalize P json root off e = Inr (Diag d)
                \<and> out_loc d = \<lparr>new_start = \<lparr>line = 1 + off_line off, column = 1, offset = 0\<rparr>,
                                  new_end = \<lparr>line = 1 + off_line off, column = 1, offset = 0\<rparr>\<rparr>
                \<and> out_start d = 1 + off_line off \<and> out_end d = 1 + off_line off"
    by (rule exI)
  with kp show ?thesis by (simp add: normalize_ignores_operation)
qed

theorem operation_decides_filter_only_witness:
  "fst (collect (demo_run [demo_op_error ''number is incompatible with string''])
          ''var x = 1'' ''/repo'' False ''/repo/a.js'' demo_offset proc0) =
     Inr (COutput [Diag \<lparr>out_debug = None, out_type = ''default'', out_level = ''error'',
                          out_message = ''number is incompatible with string'',
                          out_path = ''/repo/a.js'', out_start = 6, out_end = 6,
                          out_loc = \<lparr>new_start = \<lparr>line = 6, column = 1, offset = 0\<rparr>,
                                     new_end = \<lparr>line = 6, column = 1, offset = 0\<rparr>\<rparr>\<rparr>])
   \<and> keep (demo_run [demo_op_error ''number is incompatible with string'']) ''/repo'' ''/repo/a.js''
        (demo_op_error ''number is incompatible with string'') = Inr True"
  using operation_decides_filter_only [of "demo_run [demo_op_error ''number is incompatible with string'']"
      "''var x = 1''" "''/repo''" "''/repo/a.js''"
      "demo_envelope [demo_op_error ''number is incompatible with string'']"
      "[demo_op_error ''number is incompatible with string'']"
      "demo_op_error ''number is incompatible with string''"
      "demo_message ''call of method'' (Some (demo_loc (Some ''a.js'')))"
      "demo_loc (Some ''a.js'')" "''a.js''"
      "demo_message ''number is incompatible with string'' None" "[]"
      False demo_offset proc0
      "[Diag \<lparr>out_debug = None, out_type = ''default'', out_level = ''error'',
                          out_message = ''number is incompatible with string'',
                          out_path = ''/repo/a.js'', out_start = 6, out_end = 6,
                          out_loc = \<lparr>new_start = \<lparr>line = 6, column = 1, offset = 0\<rparr>,
                                     new_end = \<lparr>line = 6, column = 1, offset = 0\<rparr>\<rparr>\<rparr>]"]
  by (simp add: demo_op_error_def demo_defs eval_defs)

text \<open>
  C10 as stated fails: the operation's location is in the target file and the first
  message has no location, but the first description contains
  \<^verbatim>\<open>inconsistent use of\<close>, and the filter drops the error.
\<close>

theorem operation_location_description_dropped:
  "operation (demo_op_error ''inconsistent use of library definitions'')
     = Some (demo_message ''call of method'' (Some (demo_loc (Some ''a.js''))))
   \<and> path_resolve (demo_run []) ''/repo'' ''a.js'' = path_resolve (demo_run []) ''/repo'' ''/repo/a.js''
   \<and> map loc (message (demo_op_error ''inconsistent use of library definitions'')) = [None]
   \<and> fst (collect (demo_run [demo_op_error ''inconsistent use of library definitions''])
            ''var x = 1'' ''/repo'' False ''/repo/a.js'' demo_offset proc0) = Inr (COutput [])"
  by (simp add: demo_op_error_def demo_defs eval_defs)

section \<open>The rule type\<close>

text \<open>
  C8. Every element of the output of \<^verbatim>\<open>collect\<close> on an envelope with an errors array is a
  record whose \<^verbatim>\<open>type\<close> is \<^verbatim>\<open>missing-annotation\<close> if its message, in lower case, contains
  \<^verbatim>\<open>missing type annotation\<close>, and \<^verbatim>\<open>default\<close> otherwise.
\<close>

theorem rule_type:
  assumes "flow_answers P ''check-contents'' stdin root fp (JObject json)"
    and "errors json = ErrorArray errs"
    and "fst (collect P stdin root stop fp off st) = Inr (COutput out)"
  shows "\<forall>el\<in>set out. \<exists>d. el = Diag d \<and>
           out_type d = (if str_includes (toLowerCase (out_message d)) ''missing type annotation''
                         then ''missing-annotation'' else ''default'')"
proof
  fix el assume el: "el \<in> set out"
  from assms obtain kept where
    n: "list_all2 (\<lambda>e el. normalize P json root off e = Inr el) kept out"
    by (auto simp: collect_output_iff)
  from list_all2_mem2 [OF n el] obtain e where "normalize P json root off e = Inr el" by blast
  from normalize_Inr [OF this] obtain m msg where "el = Diag (output_record P json off e m msg)"
    by blast
  then show "\<exists>d. el = Diag d \<and>
           out_type d = (if str_includes (toLowerCase (out_message d)) ''missing type annotation''
                         then ''missing-annotation'' else ''default'')"
    by (simp add: output_record_def determineRuleType_def)
qed

theorem rule_type_witness:
  "fst (collect (demo_run [demo_diag ''Missing type annotation for x'' (Some ''a.js''),
                           demo_diag ''number is incompatible with string'' (Some ''a.js'')])
          ''var x = 1'' ''/repo'' False ''/repo/a.js'' demo_offset proc0) =
     Inr (COutput [Diag \<lparr>out_debug = None, out_type = ''missing-annotation'', out_level = ''error'',
                          out_message = ''Missing type annotation for x'',
                          out_path = ''/repo/a.js'', out_start = 5, out_end = 7,
                          out_loc = \<lparr>new_start = \<lparr>line = 5, column = 14, offset = 4\<rparr>,
                                     new_end = \<lparr>line = 7, column = 3, offset = 30\<rparr>\<rparr>\<rparr>,
                   Diag \<lparr>out_debug = None, out_type = ''default'', out_level = ''error'',
                          out_message = ''number is incompatible with string'',
                          out_path = ''/repo/a.js'', out_start = 5, out_end = 7,
                          out_loc = \<lparr>new_start = \<lparr>line = 5, column = 14, offset = 4\<rparr>,
                                     new_end = \<lparr>line = 7, column = 3, offset = 30\<rparr>\<rparr>\<rparr>])
"
  using rule_type [of "demo_run [demo_diag ''Missing type annotation for x'' (Some ''a.js''),
                           demo_diag ''number is incompatible with string'' (Some ''a.js'')]"
      "''var x = 1''" "''/repo''" "''/repo/a.js''"
      "demo_envelope [demo_diag ''Missing type annotation for x'' (Some ''a.js''),
                           demo_diag ''number is incompatible with string'' (Some ''a.js'')]"
      "[demo_diag ''Missing type annotation for x'' (Some ''a.js''),
                           demo_diag ''number is incompatible with string'' (Some ''a.js'')]"
      False demo_offset proc0
      "[Diag \<lparr>out_debug = None, out_type = ''missing-annotation'', out_level = ''error'',
                          out_message = ''Missing type annotation for x'',
                          out_path = ''/repo/a.js'', out_start = 5, out_end = 7,
                          out_loc = \<lparr>new_start = \<lparr>line = 5, column = 14, offset = 4\<rparr>,
                                     new_end = \<lparr>line = 7, column = 3, offset = 30\<rparr>\<rparr>\<rparr>,
                   Diag \<lparr>out_debug = None, out_type = ''default'', out_level = ''error'',
                          out_message = ''number is incompatible with string'',
                          out_path = ''/repo/a.js'', out_start = 5, out_end = 7,
                          out_loc = \<lparr>new_start = \<lparr>line = 5, column = 14, offset = 4\<rparr>,
                                     new_end = \<lparr>line = 7, column = 3, offset = 30\<rparr>\<rparr>\<rparr>]"]
  by (simp add: demo_defs eval_defs)

section \<open>The Message Formatter\<close>

lemma not_digit_bracket: "\<not> is_digit (CHR '']'')" "\<not> is_digit (CHR '' '')"
  by (simp_all add: is_digit_def)

lemma match_ref_token:
  assumes "ds \<noteq> []" "\<forall>c\<in>set ds. is_digit c"
  shows "match_ref ('' ['' @ ds @ '']'' @ post) = Some (''['' @ ds @ '']'', post)"
proof -
  have "takeWhile is_digit (ds @ CHR '']'' # post) = ds"
    using assms(2) by (simp add: not_digit_bracket)
  moreover have "dropWhile is_digit (ds @ CHR '']'' # post) = CHR '']'' # post"
    using assms(2) by (simp add: not_digit_bracket)
  ultimately show ?thesis using assms(1) by (simp add: match_ref_def)
qed

lemma match_ref_SomeD:
  assumes "match_ref s = Some (g, rest)"
  shows "\<exists>ds. ds \<noteq> [] \<and> (\<forall>c\<in>set ds. is_digit c) \<and> g = ''['' @ ds @ '']'' \<and> s = CHR '' '' # g @ rest"
proof -
  from assms obtain c1 c2 r where s: "s = c1 # c2 # r"
    by (cases s; cases "tl s") (auto simp: match_ref_def)
  from assms s have c: "c1 = CHR '' ''" "c2 = CHR ''[''"
    by (auto simp: match_ref_def split: if_splits)
  from assms s c have d: "dropWhile is_digit r = CHR '']'' # rest" and t: "takeWhile is_digit r \<noteq> []"
    and g: "g = ''['' @ takeWhile is_digit r @ '']''"
    by (auto simp: match_ref_def split: if_splits list.splits)
  have "r = takeWhile is_digit r @ dropWhile is_digit r" by simp
  then have r: "r = takeWhile is_digit r @ CHR '']'' # rest" using d by simp
  have "\<forall>c\<in>set (takeWhile is_digit r). is_digit c" by (auto dest: set_takeWhileD)
  moreover have "s = CHR '' '' # g @ rest"
    using s c g r by simp
  ultimately show ?thesis using t g by blast
qed

lemma match_ref_None_append:
  assumes "match_ref u = None" "u \<noteq> []"
  shows "match_ref (u @ CHR '' '' # v) = None"
proof (cases u)
  case Nil
  with assms show ?thesis by simp
next
  case (Cons c1 u')
  show ?thesis
  proof (cases u')
    case Nil
    with Cons show ?thesis by (simp add: match_ref_def)
  next
    case (Cons c2 r)
    note u = \<open>u = c1 # u'\<close> Cons
    show ?thesis
    proof (cases "c1 = CHR '' '' \<and> c2 = CHR ''[''")
      case False
      then show ?thesis using u by (auto simp: match_ref_def)
    next
      case True
      show ?thesis
      proof (cases "\<forall>x\<in>set r. is_digit x")
        case all: True
        then have "dropWhile is_digit (r @ CHR '' '' # v) = CHR '' '' # v"
          by (simp add: not_digit_bracket)
        then show ?thesis using u True by (simp add: match_ref_def)
      next
        case some: False
        then have d: "dropWhile is_digit (r @ CHR '' '' # v) = dropWhile is_digit r @ CHR '' '' # v"
          and t: "takeWhile is_digit (r @ CHR '' '' # v) = takeWhile is_digit r"
          by (auto simp: dropWhile_append takeWhile_append)
        from some obtain c3 rest where dr: "dropWhile is_digit r = c3 # rest"
          by (cases "dropWhile is_digit r") auto
        from assms(1) u True dr have "\<not> (takeWhile is_digit r \<noteq> [] \<and> c3 = CHR '']'')"
          by (auto simp: match_ref_def split: if_splits)
        then show ?thesis using u True d t dr by (simp add: match_ref_def)
      qed
    qed
  qed
qed

lemma has_ref_contains: "has_ref s = contains_ref s"
proof
  show "has_ref s \<Longrightarrow> contains_ref s"
  proof (induction s)
    case Nil
    then show ?case by simp
  next
    case (Cons c cs)
    show ?case
    proof (cases "match_ref (c # cs)")
      case None
      with Cons.prems have "has_ref cs" by simp
      then have "contains_ref cs" by (rule Cons.IH)
      then obtain a ds b where "cs = a @ '' ['' @ ds @ '']'' @ b" "ds \<noteq> []" "\<forall>c\<in>set ds. is_digit c"
        unfolding contains_ref_def by blast
      then have "c # cs = (c # a) @ '' ['' @ ds @ '']'' @ b \<and> ds \<noteq> [] \<and> (\<forall>c\<in>set ds. is_digit c)"
        by simp
      then show ?thesis unfolding contains_ref_def by blast
    next
      case (Some p)
      obtain g rest where "p = (g, rest)" by (cases p)
      with Some match_ref_SomeD [of "c # cs" g rest] obtain ds where
        "ds \<noteq> []" "\<forall>c\<in>set ds. is_digit c" "c # cs = [] @ '' ['' @ ds @ '']'' @ rest"
        by auto
      then show ?thesis unfolding contains_ref_def by blast
    qed
  qed
next
  assume "contains_ref s"
  then obtain a ds b where s: "s = a @ '' ['' @ ds @ '']'' @ b" and ds: "ds \<noteq> []" "\<forall>c\<in>set ds. is_digit c"
    unfolding contains_ref_def by blast
  have "has_ref (a @ '' ['' @ ds @ '']'' @ b)"
  proof (induction a)
    case Nil
    show ?case using match_ref_token [OF ds, of b] by simp
  next
    case (Cons c a)
    then show ?case by simp
  qed
  with s show "has_ref s" by simp
qed

lemma replace_refs_Nil: "replace_refs f [] = Inr []"
  by (simp add: replace_refs.simps match_ref_def)

lemma replace_refs_None:
  "match_ref (c # cs) = None \<Longrightarrow> replace_refs f (c # cs) = bindE (replace_refs f cs) (\<lambda>t. Inr (c # t))"
  by (subst replace_refs.simps) simp

lemma replace_refs_Some:
  "match_ref s = Some (g, rest) \<Longrightarrow>
   replace_refs f s = bindE (f (CHR '' '' # g) g) (\<lambda>r. bindE (replace_refs f rest) (\<lambda>t. Inr (r @ t)))"
  by (subst replace_refs.simps) simp

lemma not_has_ref_Cons: "\<not> has_ref (c # cs) \<longleftrightarrow> match_ref (c # cs) = None \<and> \<not> has_ref cs"
  by (cases "match_ref (c # cs)") simp_all

lemma replace_refs_no_ref: "\<not> has_ref s \<Longrightarrow> replace_refs f s = Inr s"
proof (induction s)
  case Nil
  show ?case by (rule replace_refs_Nil)
next
  case (Cons c cs)
  from Cons.prems have "match_ref (c # cs) = None \<and> \<not> has_ref cs"
    by (rule iffD1 [OF not_has_ref_Cons])
  then have m: "match_ref (c # cs) = None" and n: "\<not> has_ref cs" by blast+
  from replace_refs_None [OF m, of f] Cons.IH [OF n] show ?case by (simp add: bindE_def)
qed

lemma replace_refs_skip:
  "\<not> has_ref pre \<Longrightarrow>
   replace_refs f (pre @ CHR '' '' # v) = bindE (replace_refs f (CHR '' '' # v)) (\<lambda>t. Inr (pre @ t))"
proof (induction pre)
  case Nil
  show ?case by (cases "replace_refs f (CHR '' '' # v)") (simp_all add: bindE_def)
next
  case (Cons c cs)
  from Cons.prems have "match_ref (c # cs) = None \<and> \<not> has_ref cs"
    by (rule iffD1 [OF not_has_ref_Cons])
  then have "match_ref (c # cs) = None" "\<not> has_ref cs" by blast+
  from match_ref_None_append [OF this(1), of v] have "match_ref (c # cs @ CHR '' '' # v) = None" by simp
  from replace_refs_None [OF this] Cons.IH [OF \<open>\<not> has_ref cs\<close>] show ?case
    by (cases "replace_refs f (CHR '' '' # v)") (simp_all add: bindE_def)
qed

lemma replace_refs_first:
  assumes "ds \<noteq> []" "\<forall>c\<in>set ds. is_digit c" "\<not> has_ref pre"
  shows "replace_refs f (pre @ '' ['' @ ds @ '']'' @ post) =
           bindE (f ('' ['' @ ds @ '']'') (''['' @ ds @ '']''))
             (\<lambda>r. bindE (replace_refs f post) (\<lambda>t. Inr (pre @ r @ t)))"
proof -
  have "replace_refs f ('' ['' @ ds @ '']'' @ post) =
          bindE (f ('' ['' @ ds @ '']'') (''['' @ ds @ '']''))
            (\<lambda>r. bindE (replace_refs f post) (\<lambda>t. Inr (r @ t)))"
    using replace_refs_Some [OF match_ref_token [OF assms(1,2), of post], of f] by simp
  moreover have "replace_refs f (pre @ '' ['' @ ds @ '']'' @ post) =
          bindE (replace_refs f ('' ['' @ ds @ '']'' @ post)) (\<lambda>t. Inr (pre @ t))"
    using replace_refs_skip [OF assms(3), of f "''['' @ ds @ '']'' @ post"] by simp
  ultimately show ?thesis
    by (cases "f ('' ['' @ ds @ '']'') (''['' @ ds @ '']'')"; cases "replace_refs f post")
       (simp_all add: bindE_def)
qed

lemma replace_refs_total:
  assumes "\<And>m g. \<exists>r. f m g = Inr r"
  shows "\<exists>t. replace_refs f s = Inr t"
proof (induction s rule: length_induct)
  case (1 s)
  show ?case
  proof (cases "match_ref s")
    case None
    show ?thesis
    proof (cases s)
      case Nil
      then show ?thesis by (simp add: replace_refs_Nil)
    next
      case (Cons c cs)
      with 1 obtain t where "replace_refs f cs = Inr t" by auto
      with Cons None show ?thesis by (simp add: replace_refs_None bindE_def)
    qed
  next
    case (Some p)
    obtain g rest where p: "p = (g, rest)" by (cases p)
    with Some have m: "match_ref s = Some (g, rest)" by simp
    from match_ref_shorter [OF m] 1 obtain t where t: "replace_refs f rest = Inr t" by auto
    from assms obtain r where "f (CHR '' '' # g) g = Inr r" by blast
    with t show ?thesis by (simp add: replace_refs_Some [OF m] bindE_def)
  qed
qed

lemma find_extra_typed: "find_extra d (map Some extras) = Inr (find (\<lambda>x. descr x = d) extras)"
  by (induction extras) simp_all
lemma replacement_typed:
  "replacement P msg (map Some extras) root v off ('' ['' @ ds @ '']'') (''['' @ ds @ '']'') =
     Inr (reference_text P msg extras root v off ds)"
  by (simp add: replacement_def find_extra_typed bindE_def reference_text_def split: option.splits)

lemma replacement_total: "\<exists>r. replacement P msg (map Some extras) root v off m g = Inr r"
  by (simp add: replacement_def find_extra_typed bindE_def split: option.splits)

lemma replacement_descr:
  "replacement P (msg\<lparr>descr := d\<rparr>) extras root v off = replacement P msg extras root v off"
  by (rule ext, rule ext) (simp add: replacement_def cong: option.case_cong if_cong)

text \<open>
  C3. Let the description be \<open>pre\<close>, a token \<^verbatim>\<open> [ds]\<close> with \<open>ds\<close> one or more digits, and
  \<open>post\<close>, where \<open>pre\<close> contains no token. Then the formatter (which never throws on
  an array of extras without holes) returns \<open>pre\<close> unchanged, then the replacement of
  the token, then what it returns for \<open>post\<close>: every token is replaced in turn and all
  other text is kept. The replacement is the token itself when no extra's description
  is \<^verbatim>\<open>[ds]\<close>, the empty string when the first such extra has the message's path and
  line, and \<^verbatim>\<open> (see line N)\<close>, \<open>N\<close> the line offset plus the extra's line, when it has
  the message's path and another line. A description without a token is returned as
  it is. The model is a function of its arguments: nothing is mutated.
\<close>

theorem formatMessage_references:
  assumes "ds \<noteq> []" and "\<forall>c\<in>set ds. is_digit c" and "\<not> contains_ref pre"
  shows "(\<exists>t. formatMessage P (msg\<lparr>descr := post\<rparr>) (map Some extras) root v off = Inr t
            \<and> formatMessage P (msg\<lparr>descr := pre @ '' ['' @ ds @ '']'' @ post\<rparr>) (map Some extras)
                  root v off
                = Inr (pre
                       @ (case find (\<lambda>x. descr x = ''['' @ ds @ '']'') extras of
                            None \<Rightarrow> '' ['' @ ds @ '']''
                          | Some x \<Rightarrow>
                              if path x \<noteq> path msg
                              then '' (see '' @ formatSeePath P x root v @ '')''
                              else if msg_line x = msg_line msg then []
                              else '' (see line '' @ show_num (off + msg_line x) @ '')'')
                       @ t))
         \<and> formatMessage P (msg\<lparr>descr := pre\<rparr>) (map Some extras) root v off = Inr pre"
proof -
  let ?f = "replacement P msg (map Some extras) root v off"
  have nr: "\<not> has_ref pre" using assms(3) by (simp add: has_ref_contains)
  obtain t where t: "replace_refs ?f post = Inr t"
    using replace_refs_total [of ?f post] replacement_total by blast
  have "replace_refs ?f (pre @ '' ['' @ ds @ '']'' @ post) =
          Inr (pre @ reference_text P msg extras root v off ds @ t)"
    by (simp only: replace_refs_first [OF assms(1,2) nr] replacement_typed t) (simp add: bindE_def)
  with t replace_refs_no_ref [OF nr, of ?f] show ?thesis
    by (simp add: formatMessage_def replacement_descr reference_text_def)
qed

theorem formatMessage_references_witness:
  "formatMessage (demo_run []) (demo_message ''number [1] is incompatible with string [2] as [3]'' None)
     (map Some demo_extras) ''/repo'' ''0.100.0'' 5
     = Inr ''number is incompatible with string (see line 12) as [3]''
   \<and> reference_text (demo_run []) (demo_message [] None) demo_extras ''/repo'' ''0.100.0'' 5 ''1'' = []
   \<and> reference_text (demo_run []) (demo_message [] None) demo_extras ''/repo'' ''0.100.0'' 5 ''2''
       = '' (see line 12)''
   \<and> reference_text (demo_run []) (demo_message [] None) demo_extras ''/repo'' ''0.100.0'' 5 ''3''
       = '' [3]''"
  using formatMessage_references [where ds = "''1''" and pre = "''number''" and P = "demo_run []"
      and msg = "demo_message [] None" and post = "'' is incompatible with string [2] as [3]''"
      and extras = demo_extras and root = "''/repo''" and v = "''0.100.0''" and off = 5]
  by (simp add: has_ref_contains [symmetric] match_ref_def is_digit_def demo_extras_def demo_defs
      formatMessage_def
      replace_refs.simps replacement_def reference_text_def bindE_def show_num_def show_nat.simps
      digit_char_def)

end
